theory Spec2Isabelle
  imports
    Main
    "HOL-Library.Multiset"
    "HOL-Library.Sublist"
    "HOL-Library.Char_ord"
    "HOL-Library.List_Lexorder"
begin

section \<open>Data model\<close>

text \<open>
  The values that flow through \<^verbatim>\<open>cli.py\<close> are Python objects: what
  \<^verbatim>\<open>response.json()\<close> parsed, and the dictionaries the program builds from
  them. The functions are annotated \<^verbatim>\<open>Any\<close>, so the universe also holds a
  value that \<^verbatim>\<open>json.dumps\<close> cannot encode.

  \<^item> \<open>PStr\<close>: a Python \<^verbatim>\<open>str\<close>; every \<open>char\<close> stands for one code point
    below 256.
  \<^item> \<open>PFloat\<close>: a float, carried as the text \<^verbatim>\<open>float.__repr__\<close> gives for
    it (\<^verbatim>\<open>nan\<close>, \<^verbatim>\<open>inf\<close> and \<^verbatim>\<open>-inf\<close> for the three special values).
  \<^item> \<open>PDict\<close>: a dictionary with string keys, as the list of its items in
    insertion order; a Python dictionary holds every key once.
  \<^item> \<open>PObject\<close>: any other object (a set, bytes, an instance of a class),
    carried as the text \<^verbatim>\<open>str()\<close> gives for it. \<^verbatim>\<open>json.dumps\<close> raises
    \<^verbatim>\<open>TypeError\<close> on it.
\<close>

datatype pyval =
    PNone
  | PBool bool
  | PInt int
  | PFloat string
  | PStr string
  | PList "pyval list"
  | PDict "(string \<times> pyval) list"
  | PObject string

text \<open>The exceptions a modelled function can let escape.\<close>

datatype error = TypeError

text \<open>
  A normalized issue is the dictionary \<^verbatim>\<open>{"id": ..., "summary": ..., "raw": ...}\<close>
  built by \<^verbatim>\<open>_normalize_issues\<close>.
\<close>

record normalized_issue =
  id' :: string
  summary :: string
  raw :: pyval

section \<open>Python primitives\<close>

text \<open>\<^verbatim>\<open>d.get(key)\<close>: the value stored under the key, \<^verbatim>\<open>None\<close> when it is absent.\<close>

definition dict_get :: "(string \<times> pyval) list \<Rightarrow> string \<Rightarrow> pyval" where
  "dict_get d key = (case map_of d key of Some v \<Rightarrow> v | None \<Rightarrow> PNone)"

text \<open>
  \<^verbatim>\<open>s.split(sep)\<close> for a separator of one character: the pieces between the
  separators, at least one piece, empty pieces kept.
\<close>

fun split_on :: "char \<Rightarrow> string \<Rightarrow> string list" where
  "split_on sep [] = [[]]"
| "split_on sep (c # cs) =
     (if c = sep then [] # split_on sep cs
      else (case split_on sep cs of
              part # parts \<Rightarrow> (c # part) # parts
            | [] \<Rightarrow> [[c]]))"

text \<open>\<^verbatim>\<open>sep.join(parts)\<close>.\<close>

fun join :: "string \<Rightarrow> string list \<Rightarrow> string" where
  "join sep [] = []"
| "join sep [part] = part"
| "join sep (part # parts) = part @ sep @ join sep parts"

text \<open>
  \<^verbatim>\<open>s.strip()\<close>: the whitespace of \<^verbatim>\<open>str.isspace\<close> among the code points
  below 256 is removed at both ends.
\<close>

definition is_space :: "char \<Rightarrow> bool" where
  "is_space c = ((of_char c :: nat) \<in> {9, 10, 11, 12, 13, 28, 29, 30, 31, 32, 133, 160})"

definition strip :: "string \<Rightarrow> string" where
  "strip s = rev (dropWhile is_space (rev (dropWhile is_space s)))"

text \<open>Decimal digits of an integer, as \<^verbatim>\<open>int.__repr__\<close> prints them.\<close>

fun nat_repr :: "nat \<Rightarrow> string" where
  "nat_repr n =
     (if n < 10 then [''0123456789'' ! n]
      else nat_repr (n div 10) @ [''0123456789'' ! (n mod 10)])"

definition int_repr :: "int \<Rightarrow> string" where
  "int_repr i = (if i < 0 then CHR ''-'' # nat_repr (nat (- i)) else nat_repr (nat i))"

text \<open>Two and four lower-case hexadecimal digits.\<close>

definition hex_digit :: "nat \<Rightarrow> char" where
  "hex_digit n = ''0123456789abcdef'' ! (n mod 16)"

definition hex2 :: "nat \<Rightarrow> string" where
  "hex2 n = [hex_digit (n div 16), hex_digit n]"

definition hex4 :: "nat \<Rightarrow> string" where
  "hex4 n = [hex_digit (n div 4096), hex_digit (n div 256), hex_digit (n div 16), hex_digit n]"

text \<open>
  \<^verbatim>\<open>json.dumps\<close> on a string, with the default \<^verbatim>\<open>ensure_ascii=True\<close>: the
  quote and the backslash are escaped, the control characters with a short form
  get it, every other character outside the range from the space to the tilde
  becomes \<^verbatim>\<open>\uXXXX\<close>.
\<close>

definition json_escape_char :: "char \<Rightarrow> string" where
  "json_escape_char c =
     (if c = CHR 0x22 then [CHR 0x5C, CHR 0x22]
      else if c = CHR 0x5C then [CHR 0x5C, CHR 0x5C]
      else if c = CHR 0x08 then [CHR 0x5C, CHR ''b'']
      else if c = CHR 0x0C then [CHR 0x5C, CHR ''f'']
      else if c = CHR 0x0A then [CHR 0x5C, CHR ''n'']
      else if c = CHR 0x0D then [CHR 0x5C, CHR ''r'']
      else if c = CHR 0x09 then [CHR 0x5C, CHR ''t'']
      else if 32 \<le> (of_char c :: nat) \<and> (of_char c :: nat) \<le> 126 then [c]
      else [CHR 0x5C, CHR ''u''] @ hex4 (of_char c))"

definition json_string :: "string \<Rightarrow> string" where
  "json_string s = [CHR 0x22] @ concat (map json_escape_char s) @ [CHR 0x22]"

text \<open>\<^verbatim>\<open>json.dumps\<close> on a float: its \<^verbatim>\<open>repr\<close>, but for the three special values.\<close>

definition json_float :: "string \<Rightarrow> string" where
  "json_float r =
     (if r = ''nan'' then ''NaN''
      else if r = ''inf'' then ''Infinity''
      else if r = ''-inf'' then ''-Infinity''
      else r)"

text \<open>The first exception of a list of results, or all their values.\<close>

fun all_values :: "(error + 'a) list \<Rightarrow> error + 'a list" where
  "all_values [] = Inr []"
| "all_values (Inl e # rs) = Inl e"
| "all_values (Inr v # rs) = (case all_values rs of Inl e \<Rightarrow> Inl e | Inr vs \<Rightarrow> Inr (v # vs))"

text \<open>
  \<^verbatim>\<open>json.dumps(obj, sort_keys=True, separators=(item_sep, key_sep))\<close>. Both calls
  of the program sort the keys; the items of a dictionary are rendered in the
  order of their keys, which for strings is the order of the code points.
  \<^verbatim>\<open>TypeError\<close> is raised at an object that JSON has no form for.
\<close>

fun json_dumps :: "string \<Rightarrow> string \<Rightarrow> pyval \<Rightarrow> error + string" where
  "json_dumps item_sep key_sep PNone = Inr ''null''"
| "json_dumps item_sep key_sep (PBool b) = Inr (if b then ''true'' else ''false'')"
| "json_dumps item_sep key_sep (PInt i) = Inr (int_repr i)"
| "json_dumps item_sep key_sep (PFloat r) = Inr (json_float r)"
| "json_dumps item_sep key_sep (PStr s) = Inr (json_string s)"
| "json_dumps item_sep key_sep (PList xs) =
     (case all_values (map (json_dumps item_sep key_sep) xs) of
        Inl e \<Rightarrow> Inl e
      | Inr parts \<Rightarrow> Inr (''['' @ join item_sep parts @ '']''))"
| "json_dumps item_sep key_sep (PDict d) =
     (case all_values
             (map (\<lambda>(key, v).
                     (case json_dumps item_sep key_sep v of
                        Inl e \<Rightarrow> Inl e
                      | Inr text \<Rightarrow> Inr (json_string key @ key_sep @ text)))
                  (sort_key fst d)) of
        Inl e \<Rightarrow> Inl e
      | Inr parts \<Rightarrow> Inr (''{'' @ join item_sep parts @ ''}''))"
| "json_dumps item_sep key_sep (PObject t) = Inl TypeError"

text \<open>
  \<^verbatim>\<open>repr\<close> of a string: single quotes, unless the string holds a single quote
  and no double quote; the quote in use and the backslash are escaped, tab,
  newline and return get their short form, the other characters that are not
  printable become \<^verbatim>\<open>\xNN\<close>.
\<close>

definition is_printable :: "char \<Rightarrow> bool" where
  "is_printable c =
     (let n = (of_char c :: nat)
      in (32 \<le> n \<and> n < 127) \<or> (160 < n \<and> n \<noteq> 173))"

definition repr_char :: "char \<Rightarrow> char \<Rightarrow> string" where
  "repr_char quote c =
     (if c = quote \<or> c = CHR 0x5C then [CHR 0x5C, c]
      else if c = CHR 0x09 then [CHR 0x5C, CHR ''t'']
      else if c = CHR 0x0A then [CHR 0x5C, CHR ''n'']
      else if c = CHR 0x0D then [CHR 0x5C, CHR ''r'']
      else if is_printable c then [c]
      else [CHR 0x5C, CHR ''x''] @ hex2 (of_char c))"

definition str_repr :: "string \<Rightarrow> string" where
  "str_repr s =
     (let quote = (if CHR 0x27 \<in> set s \<and> CHR 0x22 \<notin> set s then CHR 0x22 else CHR 0x27)
      in [quote] @ concat (map (repr_char quote) s) @ [quote])"

text \<open>\<^verbatim>\<open>repr(obj)\<close>, and \<^verbatim>\<open>str(obj)\<close>, which differs from it on strings only.\<close>

fun py_repr :: "pyval \<Rightarrow> string" where
  "py_repr PNone = ''None''"
| "py_repr (PBool b) = (if b then ''True'' else ''False'')"
| "py_repr (PInt i) = int_repr i"
| "py_repr (PFloat r) = r"
| "py_repr (PStr s) = str_repr s"
| "py_repr (PList xs) = ''['' @ join '', '' (map py_repr xs) @ '']''"
| "py_repr (PDict d) =
     ''{'' @ join '', '' (map (\<lambda>(key, v). str_repr key @ '': '' @ py_repr v) d) @ ''}''"
| "py_repr (PObject t) = t"

definition py_str :: "pyval \<Rightarrow> string" where
  "py_str obj = (case obj of PStr s \<Rightarrow> s | _ \<Rightarrow> py_repr obj)"

section \<open>Issue locator\<close>

text \<open>
  The loop of \<^verbatim>\<open>_extract_by_path\<close>: \<open>current\<close> descends one field per part; a
  part that \<open>current\<close> does not hold, or a \<open>current\<close> that is no dictionary, ends
  the function with \<^verbatim>\<open>None\<close>.
\<close>

fun extract_by_path_loop :: "pyval \<Rightarrow> string list \<Rightarrow> pyval option" where
  "extract_by_path_loop current [] = Some current"
| "extract_by_path_loop current (part # parts) =
     (case current of
        PDict d \<Rightarrow>
          (case map_of d part of
             Some v \<Rightarrow> extract_by_path_loop v parts
           | None \<Rightarrow> None)
      | _ \<Rightarrow> None)"

text \<open>
  \<^verbatim>\<open>_extract_by_path\<close>. \<^verbatim>\<open>not path\<close> holds for \<^verbatim>\<open>None\<close> and for the empty
  string.
\<close>

definition extract_by_path :: "pyval \<Rightarrow> string option \<Rightarrow> pyval list option" where
  "extract_by_path payload path =
     (case path of
        None \<Rightarrow> None
      | Some p \<Rightarrow>
          if p = [] then None
          else (case extract_by_path_loop payload (split_on CHR ''.'' p) of
                  Some (PList xs) \<Rightarrow> Some xs
                | _ \<Rightarrow> None))"

text \<open>The dictionary \<^verbatim>\<open>doc_context\<close> built for one document.\<close>

definition doc_context :: "(string \<times> pyval) list \<Rightarrow> (string \<times> pyval) list" where
  "doc_context document =
     [(''document_id'', dict_get document ''document_id''),
      (''document_name'', dict_get document ''name''),
      (''document_type'', dict_get document ''type''),
      (''folder_name'',
         (case dict_get document ''folder'' of
            PDict folder \<Rightarrow> dict_get folder ''name''
          | _ \<Rightarrow> PNone)),
      (''folder_path'',
         (case dict_get document ''folder'' of
            PDict folder \<Rightarrow> dict_get folder ''path''
          | _ \<Rightarrow> PNone))]"

text \<open>
  \<^verbatim>\<open>message = item.get("message") if isinstance(item, dict) else item\<close>, in both
  inner loops.
\<close>

definition item_message :: "pyval \<Rightarrow> pyval" where
  "item_message item = (case item of PDict i \<Rightarrow> dict_get i ''message'' | _ \<Rightarrow> item)"

text \<open>The record appended for one item of \<^verbatim>\<open>dashboard_filter_issues\<close>.\<close>

definition dashboard_record :: "(string \<times> pyval) list \<Rightarrow> pyval \<Rightarrow> pyval" where
  "dashboard_record context item =
     PDict ([(''message'', item_message item),
             (''raw_issue'', item),
             (''issue_type'', PStr ''dashboard_filter'')] @ context)"

text \<open>The record appended for one item of a query's \<^verbatim>\<open>issues\<close>.\<close>

definition query_record ::
  "(string \<times> pyval) list \<Rightarrow> (string \<times> pyval) list \<Rightarrow> pyval \<Rightarrow> pyval" where
  "query_record context query item =
     PDict ([(''message'', item_message item),
             (''raw_issue'', item),
             (''issue_type'', PStr ''query''),
             (''query_name'', dict_get query ''query_name''),
             (''query_presentation_id'', dict_get query ''query_presentation_id'')]
            @ context)"

text \<open>
  The innermost loops: one \<^verbatim>\<open>issues.append(...)\<close> per item. The list \<open>issues\<close>
  is the state, passed in and returned.
\<close>

fun append_records :: "(pyval \<Rightarrow> pyval) \<Rightarrow> pyval list \<Rightarrow> pyval list \<Rightarrow> pyval list" where
  "append_records mk [] issues = issues"
| "append_records mk (item # items) issues = append_records mk items (issues @ [mk item])"

text \<open>The loop over \<^verbatim>\<open>queries\<close>; a query that is no dictionary is passed over.\<close>

fun collect_queries ::
  "(string \<times> pyval) list \<Rightarrow> pyval list \<Rightarrow> pyval list \<Rightarrow> pyval list" where
  "collect_queries context [] issues = issues"
| "collect_queries context (query # queries) issues =
     (case query of
        PDict q \<Rightarrow>
          (case dict_get q ''issues'' of
             PList query_issues \<Rightarrow>
               collect_queries context queries
                 (append_records (query_record context q) query_issues issues)
           | _ \<Rightarrow> collect_queries context queries issues)
      | _ \<Rightarrow> collect_queries context queries issues)"

text \<open>The body of the loop over \<^verbatim>\<open>content\<close>, for one document.\<close>

definition collect_document :: "pyval \<Rightarrow> pyval list \<Rightarrow> pyval list" where
  "collect_document document issues =
     (case document of
        PDict doc \<Rightarrow>
          (let context = doc_context doc;
               issues1 =
                 (case dict_get doc ''dashboard_filter_issues'' of
                    PList dashboard_issues \<Rightarrow>
                      append_records (dashboard_record context) dashboard_issues issues
                  | _ \<Rightarrow> issues)
           in (case dict_get doc ''queries_and_issues'' of
                 PList queries \<Rightarrow> collect_queries context queries issues1
               | _ \<Rightarrow> issues1))
      | _ \<Rightarrow> issues)"

fun collect_documents :: "pyval list \<Rightarrow> pyval list \<Rightarrow> pyval list" where
  "collect_documents [] issues = issues"
| "collect_documents (document # content) issues =
     collect_documents content (collect_document document issues)"

text \<open>\<^verbatim>\<open>_collect_content_issues\<close>; its argument is annotated as a dictionary.\<close>

definition collect_content_issues :: "(string \<times> pyval) list \<Rightarrow> pyval list" where
  "collect_content_issues payload =
     (case dict_get payload ''content'' of
        PList content \<Rightarrow> collect_documents content []
      | _ \<Rightarrow> [])"

text \<open>
  The two \<^verbatim>\<open>for key in (...)\<close> loops of \<^verbatim>\<open>_extract_issues\<close>: the value of the
  first key that holds a list; \<open>None\<close> when the loop ends without returning.
\<close>

fun first_list_value :: "(string \<times> pyval) list \<Rightarrow> string list \<Rightarrow> pyval list option" where
  "first_list_value payload [] = None"
| "first_list_value payload (key # keys) =
     (case dict_get payload key of
        PList value \<Rightarrow> Some value
      | _ \<Rightarrow> first_list_value payload keys)"

text \<open>\<^verbatim>\<open>_extract_issues\<close>.\<close>

definition extract_issues :: "pyval \<Rightarrow> string option \<Rightarrow> pyval list" where
  "extract_issues payload issues_path =
     (case extract_by_path payload issues_path of
        Some by_path \<Rightarrow> by_path
      | None \<Rightarrow>
          (case payload of
             PList xs \<Rightarrow> xs
           | PDict d \<Rightarrow>
               (case first_list_value d [''issues'', ''validation_issues'', ''errors''] of
                  Some value \<Rightarrow> value
                | None \<Rightarrow>
                    (let collected =
                           (if map_of d ''content'' \<noteq> None then collect_content_issues d
                            else [])
                     in if collected \<noteq> [] then collected
                        else (case first_list_value d
                                     [''content'', ''documents'', ''items'', ''results''] of
                                Some value \<Rightarrow> value
                              | None \<Rightarrow> [])))
           | _ \<Rightarrow> []))"

section \<open>Issue normalizer\<close>

text \<open>
  \<^verbatim>\<open>_issue_identity\<close>. The digest is a parameter: \<open>sha256_hexdigest value\<close>
  stands for \<^verbatim>\<open>hashlib.sha256(value.encode("utf-8")).hexdigest()\<close>, and nothing
  below depends on which function it is.
\<close>

definition issue_identity :: "(string \<Rightarrow> string) \<Rightarrow> pyval \<Rightarrow> string" where
  "issue_identity sha256_hexdigest issue =
     (let value =
            (case issue of
               PStr s \<Rightarrow> s
             | _ \<Rightarrow>
                 (case json_dumps '','' '':'' issue of
                    Inr text \<Rightarrow> text
                  | Inl TypeError \<Rightarrow> py_str issue))
      in sha256_hexdigest value)"

text \<open>
  The loop over \<^verbatim>\<open>("title", "name", "path", "field")\<close> of \<^verbatim>\<open>_issue_summary\<close>:
  the first value that is a string with more than whitespace in it.
\<close>

fun first_text_value :: "(string \<times> pyval) list \<Rightarrow> string list \<Rightarrow> string option" where
  "first_text_value issue [] = None"
| "first_text_value issue (key # keys) =
     (case dict_get issue key of
        PStr value \<Rightarrow> if strip value \<noteq> [] then Some value else first_text_value issue keys
      | _ \<Rightarrow> first_text_value issue keys)"

text \<open>
  The end of the dictionary branch of \<^verbatim>\<open>_issue_summary\<close>, reached when the
  message gives no summary. Its \<^verbatim>\<open>json.dumps\<close> stands outside any
  \<^verbatim>\<open>try\<close>.
\<close>

definition summary_without_message :: "(string \<times> pyval) list \<Rightarrow> error + string" where
  "summary_without_message issue =
     (case first_text_value issue [''title'', ''name'', ''path'', ''field''] of
        Some value \<Rightarrow> Inr value
      | None \<Rightarrow> json_dumps '', '' '': '' (PDict issue))"

text \<open>The list \<^verbatim>\<open>prefix_parts\<close> of \<^verbatim>\<open>_issue_summary\<close>.\<close>

definition prefix_parts :: "(string \<times> pyval) list \<Rightarrow> string list" where
  "prefix_parts issue =
     (case dict_get issue ''document_name'' of
        PStr doc_name \<Rightarrow> if strip doc_name \<noteq> [] then [strip doc_name] else []
      | _ \<Rightarrow> [])
     @
     (case dict_get issue ''query_name'' of
        PStr query_name \<Rightarrow> if strip query_name \<noteq> [] then [strip query_name] else []
      | _ \<Rightarrow> [])"

text \<open>
  The message after \<^verbatim>\<open>if message is not None and not isinstance(message, str):
  message = str(message)\<close>: a string, or \<open>None\<close> for \<^verbatim>\<open>None\<close>.
\<close>

definition coerced_message :: "(string \<times> pyval) list \<Rightarrow> string option" where
  "coerced_message issue =
     (case dict_get issue ''message'' of
        PNone \<Rightarrow> None
      | PStr s \<Rightarrow> Some s
      | other \<Rightarrow> Some (py_str other))"

text \<open>\<^verbatim>\<open>_issue_summary\<close>.\<close>

definition issue_summary :: "pyval \<Rightarrow> error + string" where
  "issue_summary issue =
     (case issue of
        PStr s \<Rightarrow> Inr s
      | PDict d \<Rightarrow>
          (case coerced_message d of
             Some message \<Rightarrow>
               if strip message \<noteq> [] then
                 (let prefix = join '' / '' (prefix_parts d)
                  in Inr (if prefix \<noteq> [] then prefix @ '': '' @ message else message))
               else summary_without_message d
           | None \<Rightarrow> summary_without_message d)
      | _ \<Rightarrow> Inr (py_str issue))"

text \<open>
  \<^verbatim>\<open>_normalize_issues\<close>: one dictionary per issue, in order; an exception of
  \<^verbatim>\<open>_issue_summary\<close> ends the loop and the function.
\<close>

definition normalize_issue :: "(string \<Rightarrow> string) \<Rightarrow> pyval \<Rightarrow> error + normalized_issue" where
  "normalize_issue sha256_hexdigest issue =
     (let identity = issue_identity sha256_hexdigest issue
      in (case issue_summary issue of
            Inl e \<Rightarrow> Inl e
          | Inr text \<Rightarrow> Inr \<lparr>id' = identity, summary = text, raw = issue\<rparr>))"

fun normalize_issues ::
  "(string \<Rightarrow> string) \<Rightarrow> pyval list \<Rightarrow> error + normalized_issue list" where
  "normalize_issues sha256_hexdigest [] = Inr []"
| "normalize_issues sha256_hexdigest (issue # issues) =
     (case normalize_issue sha256_hexdigest issue of
        Inl e \<Rightarrow> Inl e
      | Inr item \<Rightarrow>
          (case normalize_issues sha256_hexdigest issues of
             Inl e \<Rightarrow> Inl e
           | Inr normalized \<Rightarrow> Inr (item # normalized)))"

section \<open>History differ\<close>

text \<open>
  \<^verbatim>\<open>_partition_issues\<close>: two set comprehensions over the ids, then three list
  comprehensions.
\<close>

definition partition_issues ::
  "normalized_issue list \<Rightarrow> normalized_issue list \<Rightarrow>
     normalized_issue list \<times> normalized_issue list \<times> normalized_issue list" where
  "partition_issues current previous =
     (let previous_ids = set (map id' previous);
          current_ids = set (map id' current);
          new_items = [item \<leftarrow> current. id' item \<notin> previous_ids];
          existing_items = [item \<leftarrow> current. id' item \<in> previous_ids];
          resolved_items = [item \<leftarrow> previous. id' item \<notin> current_ids]
      in (new_items, existing_items, resolved_items))"

section \<open>Notions of the specification\<close>

text \<open>\<^verbatim>\<open>isinstance(v, dict)\<close> and \<^verbatim>\<open>isinstance(v, list)\<close>.\<close>

definition is_dict :: "pyval \<Rightarrow> bool" where
  "is_dict v = (case v of PDict _ \<Rightarrow> True | _ \<Rightarrow> False)"

definition is_list :: "pyval \<Rightarrow> bool" where
  "is_list v = (case v of PList _ \<Rightarrow> True | _ \<Rightarrow> False)"

text \<open>
  The traversal of the specification's rule 1: from a value, the successive field
  names lead through nested objects only, each object holding the next field, to
  the value \<open>v\<close>.
\<close>

inductive reaches :: "pyval \<Rightarrow> string list \<Rightarrow> pyval \<Rightarrow> bool" where
  reaches_here: "reaches v [] v"
| reaches_field:
    "map_of d name = Some child \<Longrightarrow> reaches child names v \<Longrightarrow>
       reaches (PDict d) (name # names) v"

text \<open>
  Rules 4 to 7 of the specification for an object payload, in its words: the
  first of the keys whose value is a sequence; then the document-tree extraction,
  when \<open>content\<close> holds a sequence and the extraction yields an issue; then the
  first of the four other keys whose value is a sequence; then the empty sequence.
\<close>

definition sequence_at :: "(string \<times> pyval) list \<Rightarrow> string \<Rightarrow> pyval list option" where
  "sequence_at d key = (case map_of d key of Some (PList xs) \<Rightarrow> Some xs | _ \<Rightarrow> None)"

definition first_sequence :: "(string \<times> pyval) list \<Rightarrow> string list \<Rightarrow> pyval list option" where
  "first_sequence d keys =
     (case List.map_filter (sequence_at d) keys of [] \<Rightarrow> None | xs # _ \<Rightarrow> Some xs)"

definition locate_in_object :: "(string \<times> pyval) list \<Rightarrow> pyval list" where
  "locate_in_object d =
     (case first_sequence d [''issues'', ''validation_issues'', ''errors''] of
        Some xs \<Rightarrow> xs
      | None \<Rightarrow>
          if sequence_at d ''content'' \<noteq> None \<and> collect_content_issues d \<noteq> []
          then collect_content_issues d
          else (case first_sequence d [''content'', ''documents'', ''items'', ''results''] of
                  Some xs \<Rightarrow> xs
                | None \<Rightarrow> []))"

text \<open>The payloads of the specification's scenarios.\<close>

definition scenario_d :: pyval where
  "scenario_d = PDict [(''data'', PDict [(''problems'', PList [])])]"

text \<open>
  A content sequence with malformed members: a number and \<^verbatim>\<open>None\<close> among the
  documents, a \<^verbatim>\<open>dashboard_filter_issues\<close> that is a string, a number among the
  queries, a query whose \<^verbatim>\<open>issues\<close> is a number.
\<close>

definition malformed_content :: "pyval list" where
  "malformed_content =
     [PInt 1,
      PDict [(''dashboard_filter_issues'', PStr ''none''),
             (''queries_and_issues'',
              PList [PInt 3,
                     PDict [(''query_name'', PStr ''q''), (''issues'', PInt 3)],
                     PDict [(''query_name'', PStr ''q''), (''issues'', PList [PStr ''x''])]])],
      PNone,
      PDict [(''name'', PStr ''D''), (''dashboard_filter_issues'', PList [PStr ''y''])]]"

definition malformed_tree :: "(string \<times> pyval) list" where
  "malformed_tree = [(''content'', PList malformed_content)]"

section \<open>Properties of the history differ\<close>

lemma mset_filter_split:
  "mset [x \<leftarrow> xs. \<not> P x] + mset [x \<leftarrow> xs. P x] = mset xs"
  by (induction xs) auto

text \<open>
  C1. For all sequences \<open>current\<close> and \<open>previous\<close> of normalized issues,
  \<open>partition_issues\<close> returns \<open>(new, existing, resolved)\<close> where \<open>new\<close> holds
  exactly the current items whose id is not a previous id, \<open>existing\<close> exactly the
  current items whose id is a previous id, both in the order of \<open>current\<close>, and
  \<open>resolved\<close> exactly the previous items whose id is not a current id, in the order
  of \<open>previous\<close>. \<open>new\<close> and \<open>existing\<close> do not overlap and together hold every
  item of \<open>current\<close> as often as \<open>current\<close> does; \<open>resolved\<close> shares no item with
  either and is drawn from \<open>previous\<close> only.
\<close>

theorem partition_issues_exact:
  "(case partition_issues current previous of (new, existing, resolved) \<Rightarrow>
      new = [item \<leftarrow> current. id' item \<notin> id' ` set previous]
    \<and> existing = [item \<leftarrow> current. id' item \<in> id' ` set previous]
    \<and> resolved = [item \<leftarrow> previous. id' item \<notin> id' ` set current]
    \<and> subseq new current \<and> subseq existing current \<and> subseq resolved previous
    \<and> set new \<inter> set existing = {}
    \<and> set new \<union> set existing = set current
    \<and> mset new + mset existing = mset current
    \<and> length new + length existing = length current
    \<and> set resolved \<inter> set new = {}
    \<and> set resolved \<inter> set existing = {}
    \<and> set resolved \<inter> set current = {}
    \<and> set resolved \<subseteq> set previous
    \<and> id' ` set resolved = id' ` set previous - id' ` set current)"
proof -
  let ?P = "\<lambda>item. id' item \<in> id' ` set previous"
  let ?new = "[item \<leftarrow> current. \<not> ?P item]"
  let ?existing = "[item \<leftarrow> current. ?P item]"
  let ?resolved = "[item \<leftarrow> previous. id' item \<notin> id' ` set current]"
  have parts: "partition_issues current previous = (?new, ?existing, ?resolved)"
    by (simp add: partition_issues_def)
  have cover: "mset ?new + mset ?existing = mset current"
    by (rule mset_filter_split)
  have len: "length ?new + length ?existing = length current"
    using sum_length_filter_compl [of ?P current] by simp
  have disj: "set ?new \<inter> set ?existing = {}"
    by auto
  have un: "set ?new \<union> set ?existing = set current"
    by auto
  have res_cur: "set ?resolved \<inter> set current = {}"
    by auto
  have res_new: "set ?resolved \<inter> set ?new = {}"
    by auto
  have res_ex: "set ?resolved \<inter> set ?existing = {}"
    by auto
  have ids: "id' ` set ?resolved = id' ` set previous - id' ` set current"
    by auto
  show ?thesis
    unfolding parts prod.case
    using cover len disj un res_cur res_new res_ex ids
    by simp
qed


section \<open>Properties of the issue locator\<close>

subsection \<open>Splitting and joining\<close>

lemma split_on_not_Nil: "split_on sep s \<noteq> []"
  by (induction s) (auto split: list.splits)

lemma split_on_no_sep: "sep \<notin> set s \<Longrightarrow> split_on sep s = [s]"
  by (induction s) auto

lemma split_on_append:
  "sep \<notin> set name \<Longrightarrow> split_on sep (name @ sep # rest) = name # split_on sep rest"
  by (induction name) auto

lemma split_on_join:
  "names \<noteq> [] \<Longrightarrow> \<forall>name \<in> set names. sep \<notin> set name \<Longrightarrow>
     split_on sep (join [sep] names) = names"
proof (induction names)
  case Nil
  then show ?case by simp
next
  case (Cons name names)
  show ?case
  proof (cases names)
    case Nil
    with Cons.prems show ?thesis by (simp add: split_on_no_sep)
  next
    case (Cons n ns)
    with Cons.IH Cons.prems show ?thesis by (simp add: split_on_append)
  qed
qed

subsection \<open>The explicit path\<close>

lemma loop_reaches:
  "reaches payload names v \<Longrightarrow> extract_by_path_loop payload names = Some v"
  by (induction rule: reaches.induct) auto

lemma reaches_loop:
  "extract_by_path_loop payload names = Some v \<Longrightarrow> reaches payload names v"
  by (induction payload names rule: extract_by_path_loop.induct)
     (auto split: pyval.splits option.splits intro: reaches.intros)

lemma loop_append:
  "extract_by_path_loop payload (names @ rest) =
     (case extract_by_path_loop payload names of
        None \<Rightarrow> None
      | Some v \<Rightarrow> extract_by_path_loop v rest)"
  by (induction payload names rule: extract_by_path_loop.induct)
     (auto split: pyval.splits option.splits)

lemma loop_stuck:
  "reaches payload names v \<Longrightarrow>
   \<not> is_dict v \<or> (\<exists>d. v = PDict d \<and> map_of d name = None) \<Longrightarrow>
     extract_by_path_loop payload (names @ name # rest) = None"
  by (auto simp: loop_append loop_reaches is_dict_def split: pyval.splits)

lemma extract_by_path_reaches:
  "path \<noteq> [] \<Longrightarrow> reaches payload (split_on CHR ''.'' path) (PList xs) \<Longrightarrow>
     extract_by_path payload (Some path) = Some xs"
  by (simp add: extract_by_path_def loop_reaches)

lemma extract_issues_by_path:
  "extract_by_path payload path = Some xs \<Longrightarrow> extract_issues payload path = xs"
  by (simp add: extract_issues_def)

lemma extract_issues_skip:
  "extract_by_path payload path = None \<Longrightarrow>
     extract_issues payload path = extract_issues payload None"
  by (simp add: extract_issues_def extract_by_path_def)

text \<open>
  C4. When an explicit path is given (a path that is not empty) and the traversal
  by its field names through nested objects ends at a sequence, \<open>extract_issues\<close>
  returns that sequence, whatever else the payload holds and also when the
  sequence is empty. The first conjunct takes the field names from the path, the
  second the path from field names that hold no dot. Scenario D: the path
  \<^verbatim>\<open>data.problems\<close> on \<^verbatim>\<open>{"data": {"problems": []}}\<close> gives the empty sequence.
\<close>

theorem explicit_path_wins:
  "(path \<noteq> [] \<longrightarrow> reaches payload (split_on CHR ''.'' path) (PList xs) \<longrightarrow>
      extract_issues payload (Some path) = xs)
   \<and> (names \<noteq> [] \<longrightarrow> join ''.'' names \<noteq> [] \<longrightarrow>
        (\<forall>name \<in> set names. CHR ''.'' \<notin> set name) \<longrightarrow>
        reaches payload names (PList xs) \<longrightarrow>
        extract_issues payload (Some (join ''.'' names)) = xs)
   \<and> extract_issues scenario_d (Some ''data.problems'') = []"
proof (intro conjI impI)
  assume "path \<noteq> []" "reaches payload (split_on CHR ''.'' path) (PList xs)"
  then show "extract_issues payload (Some path) = xs"
    by (simp add: extract_by_path_reaches extract_issues_by_path)
next
  assume names: "names \<noteq> []" "join ''.'' names \<noteq> []"
    "\<forall>name \<in> set names. CHR ''.'' \<notin> set name" "reaches payload names (PList xs)"
  have "split_on CHR ''.'' (join ''.'' names) = names"
    using split_on_join [of names "CHR ''.''"] names by simp
  with names show "extract_issues payload (Some (join ''.'' names)) = xs"
    by (simp add: extract_by_path_reaches extract_issues_by_path)
next
  show "extract_issues scenario_d (Some ''data.problems'') = []"
    by (simp add: scenario_d_def extract_issues_def extract_by_path_def)
qed

theorem explicit_path_wins_witness:
  "''data.problems'' \<noteq> []
   \<and> reaches scenario_d (split_on CHR ''.'' ''data.problems'') (PList [])
   \<and> extract_issues scenario_d (Some ''data.problems'') = []"
proof -
  have r: "reaches scenario_d (split_on CHR ''.'' ''data.problems'') (PList [])"
    by (auto simp: scenario_d_def intro!: reaches.intros)
  from explicit_path_wins [of "''data.problems''" scenario_d "[]"] r
  show ?thesis by simp
qed

text \<open>
  C10. A path that is the empty string, like no path at all, makes
  \<open>extract_by_path\<close> return nothing, so \<open>extract_issues\<close> answers as without a
  path. No field with the empty name is looked up: on \<^verbatim>\<open>{"": ["x"]}\<close> the loop
  over the split path would reach the list, and \<open>extract_issues\<close> returns the
  empty sequence of the later rules.
\<close>

theorem empty_path_is_absent:
  "extract_by_path payload (Some '''') = None
   \<and> extract_by_path payload None = None
   \<and> extract_issues payload (Some '''') = extract_issues payload None
   \<and> extract_by_path_loop (PDict [('''', PList [PStr ''x''])]) (split_on CHR ''.'' '''')
       = Some (PList [PStr ''x''])
   \<and> extract_issues (PDict [('''', PList [PStr ''x''])]) (Some '''') = []"
  by (simp add: extract_by_path_def extract_issues_def dict_get_def collect_content_issues_def)

subsection \<open>The cascade of the later rules\<close>

lemma first_list_value_eq: "first_list_value d keys = first_sequence d keys"
  by (induction keys)
     (auto simp: first_sequence_def sequence_at_def dict_get_def
           split: option.splits pyval.splits list.splits)

lemma collect_no_content:
  "sequence_at d ''content'' = None \<Longrightarrow> collect_content_issues d = []"
  by (auto simp: sequence_at_def collect_content_issues_def dict_get_def
           split: option.splits pyval.splits)

text \<open>
  C5. For an object payload on which no explicit path matched, \<open>extract_issues\<close>
  returns what rules 4 to 7 of the specification say (\<open>locate_in_object\<close>): the
  value of the first of \<open>issues\<close>, \<open>validation_issues\<close>, \<open>errors\<close> that is a
  sequence; else the document-tree extraction when \<open>content\<close> holds a sequence
  and the extraction yields an issue; else the value of the first of \<open>content\<close>,
  \<open>documents\<close>, \<open>items\<close>, \<open>results\<close> that is a sequence.
\<close>

theorem object_cascade:
  "extract_by_path (PDict d) path = None \<longrightarrow>
     extract_issues (PDict d) path = locate_in_object d"
  using collect_no_content [of d]
  by (auto simp: extract_issues_def locate_in_object_def first_list_value_eq Let_def
        sequence_at_def split: option.splits)

theorem object_cascade_witness:
  "extract_by_path (PDict [(''errors'', PList [PStr ''e'']), (''content'', PList [])]) None = None
   \<and> extract_issues (PDict [(''errors'', PList [PStr ''e'']), (''content'', PList [])]) None
       = locate_in_object [(''errors'', PList [PStr ''e'']), (''content'', PList [])]
   \<and> locate_in_object [(''errors'', PList [PStr ''e'']), (''content'', PList [])] = [PStr ''e'']"
  using object_cascade [of "[(''errors'', PList [PStr ''e'']), (''content'', PList [])]" None]
  by (simp add: extract_by_path_def locate_in_object_def first_sequence_def sequence_at_def)

lemma extract_issues_scalar:
  "extract_by_path payload path = None \<Longrightarrow> \<not> is_list payload \<Longrightarrow> \<not> is_dict payload \<Longrightarrow>
     extract_issues payload path = []"
  by (cases payload) (simp_all add: extract_issues_def is_list_def is_dict_def)

lemma extract_issues_no_match:
  "extract_by_path (PDict d) path = None \<Longrightarrow>
   first_list_value d [''issues'', ''validation_issues'', ''errors''] = None \<Longrightarrow>
   collect_content_issues d = [] \<Longrightarrow>
   first_list_value d [''content'', ''documents'', ''items'', ''results''] = None \<Longrightarrow>
     extract_issues (PDict d) path = []"
  by (simp add: extract_issues_def)


text \<open>
  C7. \<open>extract_issues\<close> is a total function into sequences: its definition
  recurses on the field names and on the lists of the payload only, and every
  access of the source stands behind an \<^verbatim>\<open>isinstance\<close> test, so no call
  raises. A rule that cannot proceed is passed over: when the explicit path gives
  nothing the result is that of the later rules; a traversal that reaches a value
  that is no object, or an object without the next field, gives nothing; a payload
  that is neither a sequence nor an object gives the empty sequence, and so does
  an object on which no rule matches. A path that resolves to a sequence gives
  that sequence, and a sequence payload is returned itself.
\<close>

theorem extract_issues_total:
  "(extract_by_path payload path = None \<longrightarrow>
      extract_issues payload path = extract_issues payload None)
   \<and> (reaches payload names v \<longrightarrow>
        \<not> is_dict v \<or> (\<exists>d. v = PDict d \<and> map_of d name = None) \<longrightarrow>
        split_on CHR ''.'' p = names @ name # rest \<longrightarrow>
        extract_by_path payload (Some p) = None \<and>
        extract_issues payload (Some p) = extract_issues payload None)
   \<and> (extract_by_path payload path = None \<longrightarrow> \<not> is_list payload \<longrightarrow> \<not> is_dict payload \<longrightarrow>
        extract_issues payload path = [])
   \<and> (payload = PDict d \<longrightarrow> extract_by_path payload path = None \<longrightarrow>
        first_list_value d [''issues'', ''validation_issues'', ''errors''] = None \<longrightarrow>
        collect_content_issues d = [] \<longrightarrow>
        first_list_value d [''content'', ''documents'', ''items'', ''results''] = None \<longrightarrow>
        extract_issues payload path = [])
   \<and> (extract_by_path payload path = Some xs \<longrightarrow> extract_issues payload path = xs)
   \<and> (payload = PList xs \<longrightarrow> extract_by_path payload path = None \<longrightarrow>
        extract_issues payload path = xs)"
  (is "?skip \<and> ?stuck \<and> ?scalar \<and> ?nomatch \<and> ?bypath \<and> ?plain")
proof -
  have 1: ?skip
    by (rule impI) (rule extract_issues_skip)
  have 2: ?stuck
  proof (intro impI)
    assume "reaches payload names v"
      "\<not> is_dict v \<or> (\<exists>d. v = PDict d \<and> map_of d name = None)"
      "split_on CHR ''.'' p = names @ name # rest"
    then have "extract_by_path payload (Some p) = None"
      by (simp add: extract_by_path_def loop_stuck)
    then show "extract_by_path payload (Some p) = None \<and>
        extract_issues payload (Some p) = extract_issues payload None"
      using extract_issues_skip [of payload "Some p"] by blast
  qed
  have 3: ?scalar
    by (simp add: extract_issues_scalar)
  have 4: ?nomatch
    using extract_issues_no_match [of d path] by simp
  have 5: ?bypath
    by (simp add: extract_issues_by_path)
  have 6: ?plain
    by (simp add: extract_issues_def)
  from 1 2 3 4 5 6 show ?thesis
    by (intro conjI)
qed

theorem extract_issues_total_witness:
  "extract_by_path (PStr ''oops'') (Some ''a.b'') = None
   \<and> reaches (PStr ''oops'') [] (PStr ''oops'')
   \<and> \<not> is_dict (PStr ''oops'') \<and> \<not> is_list (PStr ''oops'')
   \<and> split_on CHR ''.'' ''a.b'' = [] @ ''a'' # [''b'']
   \<and> extract_issues (PStr ''oops'') (Some ''a.b'') = []
   \<and> extract_issues (PStr ''oops'') None = []
   \<and> extract_by_path (PDict [(''data'', PInt 1)]) (Some ''data.problems'') = None
   \<and> first_list_value [(''data'', PInt 1)] [''issues'', ''validation_issues'', ''errors''] = None
   \<and> collect_content_issues [(''data'', PInt 1)] = []
   \<and> first_list_value [(''data'', PInt 1)] [''content'', ''documents'', ''items'', ''results'']
       = None
   \<and> extract_issues (PDict [(''data'', PInt 1)]) (Some ''data.problems'') = []"
proof -
  have r: "reaches (PStr ''oops'') [] (PStr ''oops'')"
    by (rule reaches_here)
  have s: "split_on CHR ''.'' ''a.b'' = [] @ ''a'' # [''b'']"
    by simp
  have n: "\<not> is_dict (PStr ''oops'')" "\<not> is_list (PStr ''oops'')"
    by (simp_all add: is_dict_def is_list_def)
  have a: "extract_by_path (PStr ''oops'') (Some ''a.b'') = None"
    by (simp add: extract_by_path_def)
  have b: "extract_by_path (PDict [(''data'', PInt 1)]) (Some ''data.problems'') = None"
    by (simp add: extract_by_path_def)
  have c: "first_list_value [(''data'', PInt 1)] [''issues'', ''validation_issues'', ''errors'']
             = None"
     "collect_content_issues [(''data'', PInt 1)] = []"
     "first_list_value [(''data'', PInt 1)] [''content'', ''documents'', ''items'', ''results'']
             = None"
    by (simp_all add: dict_get_def collect_content_issues_def)
  have e0: "extract_issues (PStr ''oops'') None = []"
    by (simp add: extract_issues_def extract_by_path_def)
  have e1: "extract_issues (PStr ''oops'') (Some ''a.b'') = []"
    using extract_issues_total [of "PStr ''oops''" "Some ''a.b''"] a n by blast
  have e2: "extract_issues (PDict [(''data'', PInt 1)]) (Some ''data.problems'') = []"
    using extract_issues_total
            [of "PDict [(''data'', PInt 1)]" "Some ''data.problems''" _ _ _ _ _
                "[(''data'', PInt 1)]"] b c
    by blast
  from r s n a b c e0 e1 e2 show ?thesis
    by simp
qed

subsection \<open>Document-tree extraction\<close>

lemma append_records_eq: "append_records mk items issues = issues @ map mk items"
  by (induction items arbitrary: issues) auto

lemma collect_queries_append:
  "collect_queries context (qs1 @ qs2) issues =
     collect_queries context qs2 (collect_queries context qs1 issues)"
  by (induction qs1 arbitrary: issues) (auto split: pyval.splits)

lemma collect_documents_append:
  "collect_documents (ds1 @ ds2) issues = collect_documents ds2 (collect_documents ds1 issues)"
  by (induction ds1 arbitrary: issues) auto

lemma collect_document_skip: "\<not> is_dict document \<Longrightarrow> collect_document document issues = issues"
  by (cases document) (simp_all add: collect_document_def is_dict_def)

lemma collect_documents_filter:
  "collect_documents (filter is_dict content) issues = collect_documents content issues"
  by (induction content arbitrary: issues) (auto simp: collect_document_skip)

lemma collect_queries_skip_one:
  assumes "\<not> is_dict query \<or> (\<exists>q. query = PDict q \<and> \<not> is_list (dict_get q ''issues''))"
  shows "collect_queries context (qbefore @ query # qafter) issues
           = collect_queries context (qbefore @ qafter) issues"
proof -
  have "collect_queries context (query # qafter) found = collect_queries context qafter found"
    for found
    using assms by (cases query) (auto simp: is_dict_def is_list_def split: pyval.splits)
  then show ?thesis
    by (simp add: collect_queries_append)
qed

lemma collect_queries_prefix: "\<exists>found. collect_queries context queries issues = issues @ found"
proof (induction queries arbitrary: issues)
  case Nil
  then show ?case by simp
next
  case (Cons query queries)
  show ?case
  proof (cases "\<exists>q items. query = PDict q \<and> dict_get q ''issues'' = PList items")
    case True
    then obtain q items where q: "query = PDict q" "dict_get q ''issues'' = PList items"
      by blast
    from Cons.IH [of "issues @ map (query_record context q) items"]
    obtain found where
      "collect_queries context queries (issues @ map (query_record context q) items)
         = (issues @ map (query_record context q) items) @ found"
      by blast
    with q show ?thesis by (simp add: append_records_eq)
  next
    case False
    then have "collect_queries context (query # queries) issues
                 = collect_queries context queries issues"
      by (cases query) (auto split: pyval.splits)
    with Cons.IH [of issues] show ?thesis by simp
  qed
qed

lemma collect_document_prefix: "\<exists>found. collect_document document issues = issues @ found"
proof (cases document)
  case (PDict doc)
  let ?issues1 = "(case dict_get doc ''dashboard_filter_issues'' of
                    PList dashboard_issues \<Rightarrow>
                      append_records (dashboard_record (doc_context doc)) dashboard_issues issues
                  | _ \<Rightarrow> issues)"
  have 1: "\<exists>found. ?issues1 = issues @ found"
    by (cases "dict_get doc ''dashboard_filter_issues''") (simp_all add: append_records_eq)
  then obtain f1 where f1: "?issues1 = issues @ f1" by blast
  have "\<exists>found. collect_document document issues = ?issues1 @ found"
    using collect_queries_prefix [of "doc_context doc" _ ?issues1]
    by (cases "dict_get doc ''queries_and_issues''")
       (simp_all add: PDict collect_document_def Let_def)
  then obtain f2 where "collect_document document issues = ?issues1 @ f2" by blast
  with f1 have "collect_document document issues = issues @ (f1 @ f2)" by simp
  then show ?thesis by blast
qed (simp_all add: collect_document_def)

lemma collect_documents_prefix: "\<exists>found. collect_documents content issues = issues @ found"
proof (induction content arbitrary: issues)
  case Nil
  then show ?case by simp
next
  case (Cons document content)
  obtain f1 where f1: "collect_document document issues = issues @ f1"
    using collect_document_prefix by blast
  obtain f2 where "collect_documents content (issues @ f1) = (issues @ f1) @ f2"
    using Cons.IH by blast
  with f1 show ?case by simp
qed

text \<open>
  C9. Document-tree extraction is lenient: a member of \<open>content\<close> that is no
  object adds nothing, and neither does a member of \<open>queries_and_issues\<close> that
  is no object or whose \<open>issues\<close> is no sequence; a
  \<open>dashboard_filter_issues\<close> that is no sequence is ignored and the queries of
  the document are still harvested. In every case the members that follow are
  processed as if the malformed one were absent, and what was collected before
  is kept. The extraction is a total function, defined by recursion on the lists.
\<close>

theorem collect_content_issues_lenient:
  "(\<not> is_dict document \<longrightarrow>
      collect_documents (before @ document # after) issues
        = collect_documents (before @ after) issues)
   \<and> (\<not> is_dict query \<longrightarrow>
        collect_queries context (qbefore @ query # qafter) issues
          = collect_queries context (qbefore @ qafter) issues)
   \<and> (\<not> is_list (dict_get q ''issues'') \<longrightarrow>
        collect_queries context (qbefore @ PDict q # qafter) issues
          = collect_queries context (qbefore @ qafter) issues)
   \<and> (\<not> is_list (dict_get doc ''dashboard_filter_issues'') \<longrightarrow>
        collect_document (PDict doc) issues
          = (case dict_get doc ''queries_and_issues'' of
               PList queries \<Rightarrow> collect_queries (doc_context doc) queries issues
             | _ \<Rightarrow> issues))
   \<and> (dict_get payload ''content'' = PList content \<longrightarrow>
        collect_content_issues payload = collect_documents (filter is_dict content) [])
   \<and> (\<exists>found. collect_documents content issues = issues @ found)
   \<and> (\<exists>found. collect_queries context queries issues = issues @ found)"
  (is "?doc \<and> ?query \<and> ?qissues \<and> ?dash \<and> ?content \<and> ?keep1 \<and> ?keep2")
proof -
  have 1: ?doc
    by (simp add: collect_documents_append collect_document_skip)
  have 2: ?query
    by (simp add: collect_queries_skip_one)
  have 3: ?qissues
    by (simp add: collect_queries_skip_one)
  have 4: ?dash
    by (cases "dict_get doc ''dashboard_filter_issues''")
       (simp_all add: collect_document_def is_list_def Let_def)
  have 5: ?content
    by (simp add: collect_content_issues_def collect_documents_filter)
  from 1 2 3 4 5 collect_documents_prefix collect_queries_prefix show ?thesis
    by (intro conjI)
qed


theorem collect_content_issues_lenient_witness:
  "\<not> is_dict (PInt 1)
   \<and> collect_documents ([] @ PInt 1 # tl malformed_content) []
       = collect_documents ([] @ tl malformed_content) []
   \<and> \<not> is_dict (PInt 3)
   \<and> \<not> is_list (dict_get [(''query_name'', PStr ''q''), (''issues'', PInt 3)] ''issues'')
   \<and> \<not> is_list (dict_get [(''dashboard_filter_issues'', PStr ''none'')]
                          ''dashboard_filter_issues'')
   \<and> collect_document (PDict [(''dashboard_filter_issues'', PStr ''none'')]) [] = []
   \<and> dict_get malformed_tree ''content'' = PList malformed_content
   \<and> collect_content_issues malformed_tree
       = collect_documents (filter is_dict malformed_content) []
   \<and> map (\<lambda>issue. case issue of PDict d \<Rightarrow> dict_get d ''message'' | _ \<Rightarrow> PNone)
         (collect_content_issues malformed_tree) = [PStr ''x'', PStr ''y'']"
proof -
  have h: "\<not> is_dict (PInt 1)" "\<not> is_dict (PInt 3)"
    "\<not> is_list (dict_get [(''query_name'', PStr ''q''), (''issues'', PInt 3)] ''issues'')"
    "\<not> is_list (dict_get [(''dashboard_filter_issues'', PStr ''none'')]
                      ''dashboard_filter_issues'')"
    "dict_get malformed_tree ''content'' = PList malformed_content"
    by (simp_all add: is_dict_def is_list_def dict_get_def malformed_tree_def)
  note t = collect_content_issues_lenient
             [where document = "PInt 1" and before = "[]" and after = "tl malformed_content"
                and issues = "[]" and doc = "[(''dashboard_filter_issues'', PStr ''none'')]"
                and payload = malformed_tree and content = malformed_content]
  have 1: "collect_documents ([] @ PInt 1 # tl malformed_content) []
             = collect_documents ([] @ tl malformed_content) []"
    using t h by blast
  have 2: "collect_document (PDict [(''dashboard_filter_issues'', PStr ''none'')]) [] = []"
    using t h by (simp add: dict_get_def)
  have 3: "collect_content_issues malformed_tree
             = collect_documents (filter is_dict malformed_content) []"
    using t h by blast
  have 4: "map (\<lambda>issue. case issue of PDict d \<Rightarrow> dict_get d ''message'' | _ \<Rightarrow> PNone)
             (collect_content_issues malformed_tree) = [PStr ''x'', PStr ''y'']"
    by (simp add: malformed_tree_def malformed_content_def collect_content_issues_def
          collect_document_def dict_get_def doc_context_def query_record_def
          dashboard_record_def item_message_def)
  from h 1 2 3 4 show ?thesis
    by (intro conjI)
qed

end
